theory Spec2Isabelle
  imports Main "HOL-Library.Word" "HOL-Library.Sublist"
begin

section \<open>JavaScript strings and the regular expressions of the forms\<close>

text \<open>
  A JavaScript string is a sequence of 16-bit code units; \<open>length\<close>, \<open>slice\<close>,
  \<open>replace\<close>, \<open>match\<close> and \<open>test\<close> (none of the expressions carries the \<open>u\<close> flag)
  all work on code units. \<open>js\<close> writes an ASCII literal as such a string.
\<close>

type_synonym code_unit = "16 word"
type_synonym jsstring = "code_unit list"

definition js :: "string \<Rightarrow> jsstring" where
  "js s = map of_char s"

text \<open>\<open>\d\<close> is \<open>[0-9]\<close>, the ASCII decimal digits only.\<close>

definition isDigit :: "code_unit \<Rightarrow> bool" where
  "isDigit c = (48 \<le> c \<and> c \<le> 57)"

text \<open>The complement of \<open>.\<close>: LF, CR, LINE SEPARATOR and PARAGRAPH SEPARATOR.\<close>

definition isLineTerminator :: "code_unit \<Rightarrow> bool" where
  "isLineTerminator c = (c \<in> set [10, 13, 8232, 8233])"

text \<open>
  \<open>\s\<close>, and what \<open>trim\<close> strips: ECMAScript's WhiteSpace (TAB, VT, FF, SP, NBSP,
  U+1680, U+2000 to U+200A, U+202F, U+205F, U+3000, U+FEFF) and its line terminators.
\<close>

definition isWhiteSpace :: "code_unit \<Rightarrow> bool" where
  "isWhiteSpace c =
     (c \<in> set [9, 11, 12, 32, 160, 5760, 8239, 8287, 12288, 65279]
      \<or> (8192 \<le> c \<and> c \<le> 8202) \<or> isLineTerminator c)"

text \<open>\<open>\D\<close> and \<open>\s|-\<close>, the two classes the sources delete.\<close>

definition re_NonDigit :: "code_unit \<Rightarrow> bool" where
  "re_NonDigit c = (\<not> isDigit c)"

definition re_Space_or_Hyphen :: "code_unit \<Rightarrow> bool" where
  "re_Space_or_Hyphen c = (isWhiteSpace c \<or> c = 45)"

text \<open>
  \<open>s.replace(/C/g, '')\<close> for a one-code-unit class \<open>C\<close>: the scan goes left to right and
  every code unit the class matches is replaced by the empty string.
\<close>

fun replace_g :: "(code_unit \<Rightarrow> bool) \<Rightarrow> jsstring \<Rightarrow> jsstring" where
  "replace_g cls [] = []"
| "replace_g cls (c # cs) = (if cls c then replace_g cls cs else c # replace_g cls cs)"

text \<open>
  \<open>s.slice(b, e)\<close> and \<open>s.slice(b)\<close> with the non-negative literal indices of the sources;
  both indices are clamped to the length, and an end before the start gives \<open>''\<close>.
\<close>

definition js_slice :: "jsstring \<Rightarrow> nat \<Rightarrow> nat \<Rightarrow> jsstring" where
  "js_slice s b e = drop b (take e s)"

definition js_slice_from :: "jsstring \<Rightarrow> nat \<Rightarrow> jsstring" where
  "js_slice_from s b = drop b s"

text \<open>\<open>s.trim()\<close>.\<close>

definition js_trim :: "jsstring \<Rightarrow> jsstring" where
  "js_trim s = rev (dropWhile isWhiteSpace (rev (dropWhile isWhiteSpace s)))"

text \<open>
  \<open>s.match(/.{1,4}/g)\<close>: the successive leftmost matches, each greedy: from the first code
  unit that \<open>.\<close> accepts, up to four of them; a line terminator ends a match and is skipped.
  No match at all is \<open>null\<close>.
\<close>

fun match_all_dot_1_4 :: "jsstring \<Rightarrow> jsstring list" where
  "match_all_dot_1_4 [] = []"
| "match_all_dot_1_4 (c # cs) =
     (if isLineTerminator c then match_all_dot_1_4 cs
      else (c # takeWhile (\<lambda>x. \<not> isLineTerminator x) (take 3 cs))
           # match_all_dot_1_4
               (drop (length (takeWhile (\<lambda>x. \<not> isLineTerminator x) (take 3 cs))) cs))"

definition match_dot_1_4_g :: "jsstring \<Rightarrow> jsstring list option" where
  "match_dot_1_4_g s = (if match_all_dot_1_4 s = [] then None else Some (match_all_dot_1_4 s))"

text \<open>\<open>xs.join(sep)\<close>.\<close>

fun js_join :: "jsstring \<Rightarrow> jsstring list \<Rightarrow> jsstring" where
  "js_join sep [] = []"
| "js_join sep [x] = x"
| "js_join sep (x # y # ys) = x @ sep @ js_join sep (y # ys)"

text \<open>
  The anchored patterns \<open>/^...$/\<close> of the validators are sequences of atoms that each
  consume one code unit: \<open>\d\<close>, \<open>\s\<close> or a literal. Without the \<open>m\<close> flag \<open>^\<close> and \<open>$\<close> are
  the two ends of the input, so \<open>test\<close> succeeds when the atoms match the whole string,
  one code unit each.
\<close>

datatype re_atom = Re_d | Re_s | Re_lit code_unit

fun atom_matches :: "re_atom \<Rightarrow> code_unit \<Rightarrow> bool" where
  "atom_matches Re_d c = isDigit c"
| "atom_matches Re_s c = isWhiteSpace c"
| "atom_matches (Re_lit l) c = (c = l)"

fun re_test :: "re_atom list \<Rightarrow> jsstring \<Rightarrow> bool" where
  "re_test [] [] = True"
| "re_test (a # as) (c # cs) = (atom_matches a c \<and> re_test as cs)"
| "re_test _ _ = False"

text \<open>\<open>/^\d{4} - \d{4} - \d{4} - \d{4}$/\<close> (validateAtmNumber, and the schema with the input mask).\<close>

definition atm_pattern :: "re_atom list" where
  "atm_pattern =
     replicate 4 Re_d @ map Re_lit (js '' - '') @ replicate 4 Re_d @ map Re_lit (js '' - '')
     @ replicate 4 Re_d @ map Re_lit (js '' - '') @ replicate 4 Re_d"

text \<open>\<open>/^\d{4}\s-\s\d{4}\s-\s\d{4}\s-\s\d{4}$/\<close> and \<open>/^\d{3}\s-\s\d{3}\s-\s\d{4}$/\<close> (formSchema).\<close>

definition atm_pattern_s :: "re_atom list" where
  "atm_pattern_s =
     replicate 4 Re_d @ [Re_s, Re_lit 45, Re_s] @ replicate 4 Re_d @ [Re_s, Re_lit 45, Re_s]
     @ replicate 4 Re_d @ [Re_s, Re_lit 45, Re_s] @ replicate 4 Re_d"

definition account_pattern_s :: "re_atom list" where
  "account_pattern_s =
     replicate 3 Re_d @ [Re_s, Re_lit 45, Re_s] @ replicate 3 Re_d @ [Re_s, Re_lit 45, Re_s]
     @ replicate 4 Re_d"

section \<open>The formatters\<close>

text \<open>
  Every formatter starts with the same two statements:
  \<open>const digits = value.replace(/\D/g, ''); const limitedDigits = digits.slice(0, N);\<close>
  They are the digit extractor.
\<close>

definition extractDigits :: "nat \<Rightarrow> jsstring \<Rightarrow> jsstring" where
  "extractDigits maxDigits v = (let digits = replace_g re_NonDigit v in js_slice digits 0 maxDigits)"

text \<open>\<open>formatAtmNumber\<close> of two-inputs.tsx (both copies are the same text): the cascade of slices.\<close>

definition formatAtmNumber :: "jsstring \<Rightarrow> jsstring" where
  "formatAtmNumber v =
     (let digits = replace_g re_NonDigit v;
          limitedDigits = js_slice digits 0 16
      in if length limitedDigits \<le> 4 then limitedDigits
         else if length limitedDigits \<le> 8 then
           js_slice limitedDigits 0 4 @ js '' - '' @ js_slice_from limitedDigits 4
         else if length limitedDigits \<le> 12 then
           js_slice limitedDigits 0 4 @ js '' - '' @ js_slice limitedDigits 4 8 @ js '' - ''
           @ js_slice_from limitedDigits 8
         else
           js_slice limitedDigits 0 4 @ js '' - '' @ js_slice limitedDigits 4 8 @ js '' - ''
           @ js_slice limitedDigits 8 12 @ js '' - '' @ js_slice_from limitedDigits 12)"

text \<open>\<open>formatAccountNumber\<close> of two-inputs.tsx.\<close>

definition formatAccountNumber :: "jsstring \<Rightarrow> jsstring" where
  "formatAccountNumber v =
     (let digits = replace_g re_NonDigit v;
          limitedDigits = js_slice digits 0 10
      in if length limitedDigits \<le> 3 then limitedDigits
         else if length limitedDigits \<le> 6 then
           js_slice limitedDigits 0 3 @ js '' - '' @ js_slice_from limitedDigits 3
         else
           js_slice limitedDigits 0 3 @ js '' - '' @ js_slice limitedDigits 3 6 @ js '' - ''
           @ js_slice_from limitedDigits 6)"

text \<open>
  \<open>formatAtmNumber\<close> of the \<open>useAtmMask\<close> hook: chunks of up to four by a regular expression,
  \<open>(limitedDigits.match(/.{1,4}/g) || []).join(' - ')\<close>.
\<close>

definition useAtmMask_formatAtmNumber :: "jsstring \<Rightarrow> jsstring" where
  "useAtmMask_formatAtmNumber v =
     (let digits = replace_g re_NonDigit v;
          limitedDigits = js_slice digits 0 16;
          groups = (case match_dot_1_4_g limitedDigits of None \<Rightarrow> [] | Some ms \<Rightarrow> ms)
      in js_join (js '' - '') groups)"

text \<open>
  The grouped formatter as the specification words it: the digits are cut left to right
  into groups of the configured lengths, the last one possibly short, and the groups are
  joined by the separator.
\<close>

fun groupsOf :: "nat list \<Rightarrow> jsstring \<Rightarrow> jsstring list" where
  "groupsOf [] d = []"
| "groupsOf (g # gs) d = (if d = [] then [] else take g d # groupsOf gs (drop g d))"

definition formatGrouped :: "nat list \<Rightarrow> jsstring \<Rightarrow> jsstring \<Rightarrow> jsstring" where
  "formatGrouped groupLengths separator d = js_join separator (groupsOf groupLengths d)"

section \<open>The key handlers\<close>

text \<open>
  What the handlers read of a keydown event: \<open>keyCode\<close>, \<open>ctrlKey\<close>, \<open>shiftKey\<close> and the
  value of the input it was fired on. Their only effect is \<open>e.preventDefault()\<close>. The
  event also carries \<open>metaKey\<close> (the Command key); neither handler reads it.
\<close>

record KeyboardEvent =
  keyCode :: nat
  ctrlKey :: bool
  shiftKey :: bool
  metaKey :: bool
  target_value :: jsstring

datatype key_default = Proceeds | Prevented

text \<open>\<open>handleKeyDown\<close> of the \<open>useAtmMask\<close> hook.\<close>

definition useAtmMask_handleKeyDown :: "KeyboardEvent \<Rightarrow> key_default" where
  "useAtmMask_handleKeyDown e =
     (let currentValue = target_value e;
          currentDigits = replace_g re_NonDigit currentValue
      in if keyCode e \<in> set [8, 9, 27, 13, 46]
            \<or> (keyCode e = 65 \<and> ctrlKey e = True)
            \<or> (keyCode e = 67 \<and> ctrlKey e = True)
            \<or> (keyCode e = 86 \<and> ctrlKey e = True)
            \<or> (keyCode e = 88 \<and> ctrlKey e = True)
            \<or> (keyCode e = 90 \<and> ctrlKey e = True)
            \<or> (keyCode e \<ge> 35 \<and> keyCode e \<le> 39)
         then Proceeds
         else if length currentDigits \<ge> 16 then Prevented
         else if (shiftKey e \<or> (keyCode e < 48 \<or> keyCode e > 57))
                 \<and> (keyCode e < 96 \<or> keyCode e > 105)
         then Prevented
         else Proceeds)"

text \<open>
  \<open>handleKeyDown\<close> of the \<open>AtmNumberInput\<close> built on the input-mask component: the same
  allow list and digit test, and no look at the field's value.
\<close>

definition AtmNumberInput_handleKeyDown :: "KeyboardEvent \<Rightarrow> key_default" where
  "AtmNumberInput_handleKeyDown e =
     (if keyCode e \<in> set [8, 9, 27, 13, 46]
         \<or> (keyCode e = 65 \<and> ctrlKey e = True)
         \<or> (keyCode e = 67 \<and> ctrlKey e = True)
         \<or> (keyCode e = 86 \<and> ctrlKey e = True)
         \<or> (keyCode e = 88 \<and> ctrlKey e = True)
         \<or> (keyCode e = 90 \<and> ctrlKey e = True)
         \<or> (keyCode e \<ge> 35 \<and> keyCode e \<le> 39)
      then Proceeds
      else if (shiftKey e \<or> (keyCode e < 48 \<or> keyCode e > 57))
              \<and> (keyCode e < 96 \<or> keyCode e > 105)
      then Prevented
      else Proceeds)"

section \<open>The validators\<close>

text \<open>\<open>validateAtmNumber\<close>: an error message, or \<open>null\<close> for a valid value.\<close>

definition validateAtmNumber :: "jsstring \<Rightarrow> string option" where
  "validateAtmNumber v =
     (if v = [] \<or> js_trim v = [] then Some ''ATM number is required''
      else let digits = replace_g re_NonDigit v
           in if length digits < 16 then Some ''ATM number must be 16 digits''
              else if \<not> re_test atm_pattern v
                then Some ''ATM number must be in format: 0000 - 0000 - 0000 - 0000''
              else None)"

text \<open>
  The schemas are chains of checks on a \<open>z.string()\<close>: \<open>min\<close>, \<open>regex\<close> and \<open>refine\<close>, each
  with its message. The schema library is a dependency of the repository; of its
  behaviour the model takes that parsing a string evaluates the checks in the order of
  the chain, that none of these checks stops the ones after it, that each failed check
  raises one issue carrying its message, and that the value is valid when no issue was
  raised. The form shows the message of the first issue.
\<close>

datatype zod_check =
    ZMin nat string
  | ZRegex "re_atom list" string
  | ZRefine "jsstring \<Rightarrow> bool" string

fun zod_passes :: "zod_check \<Rightarrow> jsstring \<Rightarrow> bool" where
  "zod_passes (ZMin n msg) v = (length v \<ge> n)"
| "zod_passes (ZRegex p msg) v = re_test p v"
| "zod_passes (ZRefine f msg) v = f v"

fun zod_message :: "zod_check \<Rightarrow> string" where
  "zod_message (ZMin n msg) = msg"
| "zod_message (ZRegex p msg) = msg"
| "zod_message (ZRefine f msg) = msg"

fun zod_issues :: "zod_check list \<Rightarrow> jsstring \<Rightarrow> string list" where
  "zod_issues [] v = []"
| "zod_issues (c # cs) v =
     (if zod_passes c v then zod_issues cs v else zod_message c # zod_issues cs v)"

text \<open>\<open>formSchema.atmNumber\<close> and \<open>formSchema.accountNumber\<close> of two-inputs.tsx.\<close>

definition formSchema_atmNumber :: "zod_check list" where
  "formSchema_atmNumber =
     [ZMin 1 ''ATM number should not be empty'',
      ZRefine (\<lambda>v. length (replace_g re_Space_or_Hyphen v) \<ge> 15)
        ''ATM number must be at least 15 characters'',
      ZRefine (\<lambda>v. re_test atm_pattern_s v)
        ''ATM number must be in format: 0000 - 0000 - 0000 - 0000'']"

definition formSchema_accountNumber :: "zod_check list" where
  "formSchema_accountNumber =
     [ZMin 1 ''Account number should not be empty'',
      ZRefine (\<lambda>v. length (replace_g re_Space_or_Hyphen v) \<ge> 10)
        ''Account number must be at least 10 characters'',
      ZRefine (\<lambda>v. re_test account_pattern_s v)
        ''Account number must be in format: 000 - 000 - 0000'']"

text \<open>\<open>schema.atmNumber\<close> of the form built on the input-mask component.\<close>

definition schema_atmNumber :: "zod_check list" where
  "schema_atmNumber =
     [ZMin 1 ''ATM number is required'',
      ZRegex atm_pattern ''ATM number must be in format: 0000 - 0000 - 0000 - 0000'',
      ZRefine (\<lambda>val. length (replace_g re_Space_or_Hyphen val) = 16)
        ''ATM number must be 16 digits'']"

section \<open>Digits, chunks and groups\<close>

lemma replace_g_filter: "replace_g cls s = filter (\<lambda>c. \<not> cls c) s"
  by (induction s) simp_all

lemma replace_NonDigit_filter: "replace_g re_NonDigit s = filter isDigit s"
  by (simp add: replace_g_filter re_NonDigit_def)

lemma replace_NonDigit_digits: "list_all isDigit d \<Longrightarrow> replace_g re_NonDigit d = d"
  by (simp add: replace_NonDigit_filter list_all_iff)

lemma replace_g_append: "replace_g cls (a @ b) = replace_g cls a @ replace_g cls b"
  by (simp add: replace_g_filter)

lemma replace_NonDigit_separator: "replace_g re_NonDigit (js '' - '') = []"
  by (simp add: js_def re_NonDigit_def isDigit_def)

lemma extractDigits_take_filter: "extractDigits n v = take n (filter isDigit v)"
  by (simp add: extractDigits_def js_slice_def replace_NonDigit_filter)

lemma extractDigits_all_digits: "list_all isDigit (extractDigits n v)"
  by (auto simp: extractDigits_take_filter list_all_iff dest: in_set_takeD)

lemma extractDigits_length: "length (extractDigits n v) \<le> n"
  by (simp add: extractDigits_take_filter)

lemma extractDigits_id: "list_all isDigit d \<Longrightarrow> length d \<le> n \<Longrightarrow> extractDigits n d = d"
  by (simp add: extractDigits_take_filter list_all_iff)

lemma digit_not_line_terminator: "isDigit c \<Longrightarrow> \<not> isLineTerminator c"
  by (auto simp: isDigit_def isLineTerminator_def)

lemma digit_not_white_space: "isDigit c \<Longrightarrow> \<not> isWhiteSpace c"
  by (auto simp: isDigit_def isWhiteSpace_def isLineTerminator_def word_le_nat_alt)

lemma match_all_no_terminator:
  "list_all (\<lambda>c. \<not> isLineTerminator c) s \<Longrightarrow>
   match_all_dot_1_4 s = (if s = [] then [] else take 4 s # match_all_dot_1_4 (drop 4 s))"
proof (cases s)
  case Nil
  then show ?thesis by simp
next
  case (Cons c cs)
  assume "list_all (\<lambda>c. \<not> isLineTerminator c) s"
  with Cons have c: "\<not> isLineTerminator c" and cs: "list_all (\<lambda>c. \<not> isLineTerminator c) cs"
    by simp_all
  from cs have "list_all (\<lambda>c. \<not> isLineTerminator c) (take 3 cs)"
    by (auto simp: list_all_iff dest: in_set_takeD)
  then have tw: "takeWhile (\<lambda>x. \<not> isLineTerminator x) (take 3 cs) = take 3 cs"
    by (simp add: list_all_iff)
  have dr: "drop (length (take 3 cs)) cs = drop 3 cs"
    by (cases "3 \<le> length cs") (simp_all add: min_def)
  have t4: "take 4 (c # cs) = c # take 3 cs"
    by (simp add: take_Cons')
  have d4: "drop 4 (c # cs) = drop 3 cs"
    by (simp add: drop_Cons')
  show ?thesis
    unfolding Cons using c by (simp only: match_all_dot_1_4.simps tw dr t4 d4 if_False list.simps)
qed

lemma match_all_groupsOf:
  "list_all (\<lambda>c. \<not> isLineTerminator c) s \<Longrightarrow> length s \<le> 4 * n \<Longrightarrow>
   match_all_dot_1_4 s = groupsOf (replicate n 4) s"
proof (induction n arbitrary: s)
  case 0
  then show ?case by simp
next
  case (Suc n)
  show ?case
  proof (cases "s = []")
    case True
    then show ?thesis by simp
  next
    case False
    from Suc.prems(1) have "list_all (\<lambda>c. \<not> isLineTerminator c) (drop 4 s)"
      by (auto simp: list_all_iff dest: in_set_dropD)
    moreover from Suc.prems(2) have "length (drop 4 s) \<le> 4 * n" by simp
    ultimately have "match_all_dot_1_4 (drop 4 s) = groupsOf (replicate n 4) (drop 4 s)"
      by (rule Suc.IH)
    with False show ?thesis
      by (subst match_all_no_terminator [OF Suc.prems(1)]) simp
  qed
qed

lemma replicate_4_4: "replicate 4 (4::nat) = [4, 4, 4, 4]"
  by (simp add: numeral_eq_Suc)

lemma useAtmMask_formatAtmNumber_grouped:
  "useAtmMask_formatAtmNumber v = formatGrouped [4, 4, 4, 4] (js '' - '') (extractDigits 16 v)"
proof -
  let ?d = "extractDigits 16 v"
  have "list_all (\<lambda>c. \<not> isLineTerminator c) ?d"
    using extractDigits_all_digits [of 16 v]
    by (auto simp: list_all_iff dest: digit_not_line_terminator)
  moreover have "length ?d \<le> 4 * 4" using extractDigits_length [of 16 v] by simp
  ultimately have "match_all_dot_1_4 ?d = groupsOf [4, 4, 4, 4] ?d"
    using match_all_groupsOf [of ?d 4] by (simp only: replicate_4_4)
  then show ?thesis
    by (simp add: useAtmMask_formatAtmNumber_def formatGrouped_def match_dot_1_4_g_def
        extractDigits_def Let_def)
qed

lemma cascade_4444:
  "length d \<le> 16 \<Longrightarrow>
   (if length d \<le> 4 then d
    else if length d \<le> 8 then js_slice d 0 4 @ sep @ js_slice_from d 4
    else if length d \<le> 12 then
      js_slice d 0 4 @ sep @ js_slice d 4 8 @ sep @ js_slice_from d 8
    else js_slice d 0 4 @ sep @ js_slice d 4 8 @ sep @ js_slice d 8 12 @ sep
         @ js_slice_from d 12)
   = js_join sep (groupsOf [4, 4, 4, 4] d)"
  by (auto simp: js_slice_def js_slice_from_def drop_take)

lemma formatAtmNumber_grouped:
  "formatAtmNumber v = formatGrouped [4, 4, 4, 4] (js '' - '') (extractDigits 16 v)"
  unfolding formatGrouped_def
  by (subst cascade_4444 [OF extractDigits_length [of 16 v], symmetric])
     (simp add: formatAtmNumber_def extractDigits_def Let_def)

lemma cascade_334:
  "length d \<le> 10 \<Longrightarrow>
   (if length d \<le> 3 then d
    else if length d \<le> 6 then js_slice d 0 3 @ sep @ js_slice_from d 3
    else js_slice d 0 3 @ sep @ js_slice d 3 6 @ sep @ js_slice_from d 6)
   = js_join sep (groupsOf [3, 3, 4] d)"
  by (auto simp: js_slice_def js_slice_from_def drop_take)

lemma formatAccountNumber_grouped:
  "formatAccountNumber v = formatGrouped [3, 3, 4] (js '' - '') (extractDigits 10 v)"
  unfolding formatGrouped_def
  by (subst cascade_334 [OF extractDigits_length [of 10 v], symmetric])
     (simp add: formatAccountNumber_def extractDigits_def Let_def)

section \<open>Extraction and formatting\<close>

lemma concat_groupsOf: "concat (groupsOf gs d) = take (sum_list gs) d"
proof (induction gs arbitrary: d)
  case Nil
  then show ?case by simp
next
  case (Cons g gs)
  then show ?case by (simp add: take_add)
qed

lemma replace_g_join:
  "replace_g cls sep = [] \<Longrightarrow> replace_g cls (js_join sep xs) = replace_g cls (concat xs)"
  by (induction sep xs rule: js_join.induct) (simp_all add: replace_g_append)

lemma digits_of_formatGrouped:
  "replace_g re_NonDigit sep = [] \<Longrightarrow>
   replace_g re_NonDigit (formatGrouped gs sep d) = replace_g re_NonDigit (take (sum_list gs) d)"
  by (simp add: formatGrouped_def replace_g_join concat_groupsOf)

lemma extractDigits_formatGrouped:
  assumes "list_all isDigit d" and "length d \<le> n" and "length d \<le> sum_list gs"
  shows "extractDigits n (formatGrouped gs (js '' - '') d) = d"
proof -
  have "replace_g re_NonDigit (formatGrouped gs (js '' - '') d) = replace_g re_NonDigit d"
    using assms(3) by (simp add: digits_of_formatGrouped replace_NonDigit_separator)
  also have "\<dots> = d" using assms(1) by (rule replace_NonDigit_digits)
  finally show ?thesis using assms(2) by (simp add: extractDigits_def js_slice_def)
qed

lemma groupsOf_groups:
  "list_all isDigit d \<Longrightarrow> 0 \<notin> set gs \<Longrightarrow>
   list_all (\<lambda>g. g \<noteq> [] \<and> list_all isDigit g) (groupsOf gs d)"
proof (induction gs arbitrary: d)
  case Nil
  then show ?case by simp
next
  case (Cons g gs)
  from Cons.prems(1) have "list_all isDigit (take g d)" "list_all isDigit (drop g d)"
    by (auto simp: list_all_iff dest: in_set_takeD in_set_dropD)
  with Cons show ?case by auto
qed

lemma js_join_ends:
  "xs \<noteq> [] \<Longrightarrow> list_all (\<lambda>g. g \<noteq> [] \<and> list_all P g) xs \<Longrightarrow>
   js_join sep xs \<noteq> [] \<and> P (hd (js_join sep xs)) \<and> P (last (js_join sep xs))"
proof (induction sep xs rule: js_join.induct)
  case (1 sep)
  then show ?case by simp
next
  case (2 sep x)
  then show ?case by (simp add: list_all_iff)
next
  case (3 sep x y ys)
  then show ?case by (simp add: list_all_iff hd_append)
qed

lemma formatGrouped_ends:
  assumes "list_all isDigit d" and "0 \<notin> set gs"
  shows "\<not> prefix (js '' - '') (formatGrouped gs (js '' - '') d)
       \<and> \<not> suffix (js '' - '') (formatGrouped gs (js '' - '') d)"
proof (cases "groupsOf gs d = []")
  case True
  then show ?thesis by (simp add: formatGrouped_def js_def)
next
  case False
  let ?out = "formatGrouped gs (js '' - '') d"
  from js_join_ends [OF False groupsOf_groups [OF assms]]
  have ne: "?out \<noteq> []" and h: "isDigit (hd ?out)" and l: "isDigit (last ?out)"
    by (simp_all add: formatGrouped_def)
  have "\<not> prefix (js '' - '') ?out"
  proof
    assume "prefix (js '' - '') ?out"
    then obtain r where "?out = js '' - '' @ r" by (auto simp: prefix_def)
    then have "hd ?out = 32" by (simp add: js_def)
    with h show False by (simp add: isDigit_def)
  qed
  moreover have "\<not> suffix (js '' - '') ?out"
  proof
    assume "suffix (js '' - '') ?out"
    then obtain r where "?out = r @ js '' - ''" by (auto simp: suffix_def)
    then have "last ?out = 32" by (simp add: js_def)
    with l show False by (simp add: isDigit_def)
  qed
  ultimately show ?thesis by simp
qed

lemma extractDigits_subseq: "subseq (extractDigits n v) v"
proof -
  have "subseq (take n (filter isDigit v)) (filter isDigit v)"
    by (simp add: prefix_imp_subseq take_is_prefix)
  moreover have "subseq (filter isDigit v) v" by simp
  ultimately show ?thesis
    unfolding extractDigits_take_filter by (rule subseq_order.trans)
qed

text \<open>
  C6. The extractor is total. For every input string it returns the ASCII decimal digits of
  the input, in their order, cut to the configured maximum length; the result is a
  subsequence of the input; the empty string gives the empty string;
  \<open>extractDigits("12-34 ab56")\<close> is \<open>"123456"\<close>, and twenty digits under a maximum of 16 give
  the first sixteen.
\<close>

theorem extractDigits_total_truncating:
  "extractDigits n v = take n (filter isDigit v)
   \<and> subseq (extractDigits n v) v
   \<and> extractDigits n [] = []
   \<and> extractDigits 16 (js ''12-34 ab56'') = js ''123456''
   \<and> length (extractDigits 16 (js ''12345678901234567890'')) = 16
   \<and> extractDigits 16 (js ''12345678901234567890'') = js ''1234567890123456''"
proof -
  have "extractDigits 16 (js ''12-34 ab56'') = js ''123456''"
    by (simp add: extractDigits_take_filter js_def isDigit_def)
  moreover have e: "extractDigits 16 (js ''12345678901234567890'') = js ''1234567890123456''"
    by (simp add: extractDigits_take_filter js_def isDigit_def)
  moreover have "length (extractDigits 16 (js ''12345678901234567890'')) = 16"
    unfolding e by (simp add: js_def)
  moreover have "extractDigits n [] = []"
    by (simp add: extractDigits_take_filter)
  ultimately show ?thesis
    using extractDigits_take_filter [of n v] extractDigits_subseq [of n v] by blast
qed

text \<open>
  C9. The cascade of slices and the chunking by a regular expression are the same function:
  on every input string the two \<open>formatAtmNumber\<close> return the same output.
\<close>

theorem formatters_coincide: "formatAtmNumber v = useAtmMask_formatAtmNumber v"
  by (simp only: formatAtmNumber_grouped useAtmMask_formatAtmNumber_grouped)

text \<open>
  C1. Round trip. For a string of decimal digits no longer than the maximum, extracting the
  digits of its formatted form gives the string back: under the ATM configuration (16
  digits, groups 4-4-4-4) for both ATM formatters, and under the account configuration (10
  digits, groups 3-3-4).
\<close>

theorem round_trip:
  "list_all isDigit d \<Longrightarrow>
   (length d \<le> 16 \<longrightarrow>
      extractDigits 16 (formatAtmNumber d) = d
      \<and> extractDigits 16 (useAtmMask_formatAtmNumber d) = d)
   \<and> (length d \<le> 10 \<longrightarrow> extractDigits 10 (formatAccountNumber d) = d)"
  by (simp add: formatAtmNumber_grouped useAtmMask_formatAtmNumber_grouped
      formatAccountNumber_grouped extractDigits_id extractDigits_formatGrouped)

text \<open>The round trip at the seven digits \<open>1234567\<close>.\<close>

theorem round_trip_witness:
  "list_all isDigit (js ''1234567'')
   \<and> extractDigits 16 (formatAtmNumber (js ''1234567'')) = js ''1234567''
   \<and> extractDigits 16 (useAtmMask_formatAtmNumber (js ''1234567'')) = js ''1234567''
   \<and> extractDigits 10 (formatAccountNumber (js ''1234567'')) = js ''1234567''"
proof -
  have d: "list_all isDigit (js ''1234567'')" by (simp add: js_def isDigit_def)
  have l: "length (js ''1234567'') \<le> 16" "length (js ''1234567'') \<le> 10" by (simp_all add: js_def)
  from round_trip [OF d] l d show ?thesis by blast
qed

section \<open>The anchored patterns and validateAtmNumber\<close>

lemma re_test_list_all2: "re_test p v = list_all2 atom_matches p v"
  by (induction p v rule: re_test.induct) simp_all

lemma re_test_append:
  "re_test (p @ q) v = (\<exists>a b. v = a @ b \<and> re_test p a \<and> re_test q b)"
proof
  assume "re_test (p @ q) v"
  then show "\<exists>a b. v = a @ b \<and> re_test p a \<and> re_test q b"
    unfolding re_test_list_all2 list_all2_append1 by blast
next
  assume "\<exists>a b. v = a @ b \<and> re_test p a \<and> re_test q b"
  then obtain a b where "v = a @ b" "list_all2 atom_matches p a" "list_all2 atom_matches q b"
    unfolding re_test_list_all2 by blast
  then show "re_test (p @ q) v"
    unfolding re_test_list_all2 by (simp add: list_all2_appendI)
qed

lemma re_test_digits: "re_test (replicate n Re_d) a = (length a = n \<and> list_all isDigit a)"
proof (induction n arbitrary: a)
  case 0
  show ?case by (cases a) simp_all
next
  case (Suc n)
  show ?case by (cases a) (auto simp: Suc.IH)
qed

lemma re_test_literal: "re_test (map Re_lit s) a = (a = s)"
proof (induction s arbitrary: a)
  case Nil
  show ?case by (cases a) simp_all
next
  case (Cons c s)
  show ?case by (cases a) (auto simp: Cons.IH)
qed

lemma re_test_length: "re_test p v \<Longrightarrow> length v = length p"
  by (simp add: re_test_list_all2 list_all2_lengthD)

lemma re_test_appendI: "re_test p a \<Longrightarrow> re_test q b \<Longrightarrow> re_test (p @ q) (a @ b)"
  unfolding re_test_append by blast

lemma re_test_digits_then:
  "re_test (replicate n Re_d @ q) v \<Longrightarrow>
   \<exists>g r. v = g @ r \<and> length g = n \<and> list_all isDigit g \<and> re_test q r"
  unfolding re_test_append re_test_digits by blast

lemma re_test_literal_then: "re_test (map Re_lit s @ q) v \<Longrightarrow> \<exists>r. v = s @ r \<and> re_test q r"
  unfolding re_test_append re_test_literal by blast

lemma atm_pattern_groups:
  "re_test atm_pattern v =
   (\<exists>g1 g2 g3 g4.
      v = g1 @ js '' - '' @ g2 @ js '' - '' @ g3 @ js '' - '' @ g4
      \<and> length g1 = 4 \<and> list_all isDigit g1 \<and> length g2 = 4 \<and> list_all isDigit g2
      \<and> length g3 = 4 \<and> list_all isDigit g3 \<and> length g4 = 4 \<and> list_all isDigit g4)"
proof
  assume "re_test atm_pattern v"
  then obtain g1 r1 where 1: "v = g1 @ r1" "length g1 = 4" "list_all isDigit g1"
    and "re_test (map Re_lit (js '' - '') @ replicate 4 Re_d @ map Re_lit (js '' - '')
     @ replicate 4 Re_d @ map Re_lit (js '' - '') @ replicate 4 Re_d) r1"
    unfolding atm_pattern_def by (blast dest: re_test_digits_then)
  then obtain r2 where 2: "r1 = js '' - '' @ r2"
    and "re_test (replicate 4 Re_d @ map Re_lit (js '' - '')
     @ replicate 4 Re_d @ map Re_lit (js '' - '') @ replicate 4 Re_d) r2"
    by (blast dest: re_test_literal_then)
  then obtain g2 r3 where 3: "r2 = g2 @ r3" "length g2 = 4" "list_all isDigit g2"
    and "re_test (map Re_lit (js '' - '') @ replicate 4 Re_d @ map Re_lit (js '' - '')
     @ replicate 4 Re_d) r3"
    by (blast dest: re_test_digits_then)
  then obtain r4 where 4: "r3 = js '' - '' @ r4"
    and "re_test (replicate 4 Re_d @ map Re_lit (js '' - '') @ replicate 4 Re_d) r4"
    by (blast dest: re_test_literal_then)
  then obtain g3 r5 where 5: "r4 = g3 @ r5" "length g3 = 4" "list_all isDigit g3"
    and "re_test (map Re_lit (js '' - '') @ replicate 4 Re_d) r5"
    by (blast dest: re_test_digits_then)
  then obtain g4 where 6: "r5 = js '' - '' @ g4" and "re_test (replicate 4 Re_d) g4"
    by (blast dest: re_test_literal_then)
  then have 7: "length g4 = 4" "list_all isDigit g4"
    by (simp_all add: re_test_digits)
  have "v = g1 @ js '' - '' @ g2 @ js '' - '' @ g3 @ js '' - '' @ g4"
    by (simp only: 1 2 3 4 5 6)
  with 1 3 5 7 show "\<exists>g1 g2 g3 g4.
      v = g1 @ js '' - '' @ g2 @ js '' - '' @ g3 @ js '' - '' @ g4
      \<and> length g1 = 4 \<and> list_all isDigit g1 \<and> length g2 = 4 \<and> list_all isDigit g2
      \<and> length g3 = 4 \<and> list_all isDigit g3 \<and> length g4 = 4 \<and> list_all isDigit g4"
    by blast
next
  assume "\<exists>g1 g2 g3 g4.
      v = g1 @ js '' - '' @ g2 @ js '' - '' @ g3 @ js '' - '' @ g4
      \<and> length g1 = 4 \<and> list_all isDigit g1 \<and> length g2 = 4 \<and> list_all isDigit g2
      \<and> length g3 = 4 \<and> list_all isDigit g3 \<and> length g4 = 4 \<and> list_all isDigit g4"
  then obtain g1 g2 g3 g4 where
    v: "v = g1 @ js '' - '' @ g2 @ js '' - '' @ g3 @ js '' - '' @ g4"
    and g: "re_test (replicate 4 Re_d) g1" "re_test (replicate 4 Re_d) g2"
      "re_test (replicate 4 Re_d) g3" "re_test (replicate 4 Re_d) g4"
    unfolding re_test_digits by blast
  have s: "re_test (map Re_lit (js '' - '')) (js '' - '')"
    by (simp only: re_test_literal)
  show "re_test atm_pattern v"
    unfolding v atm_pattern_def by (intro re_test_appendI g s)
qed

lemma formatGrouped_four_groups:
  assumes "length g1 = 4" "length g2 = 4" "length g3 = 4" "length g4 = 4"
  shows "formatGrouped [4, 4, 4, 4] sep (g1 @ g2 @ g3 @ g4)
         = g1 @ sep @ g2 @ sep @ g3 @ sep @ g4"
proof -
  from assms have "g1 \<noteq> []" "g2 \<noteq> []" "g3 \<noteq> []" "g4 \<noteq> []" by auto
  with assms show ?thesis by (simp add: formatGrouped_def)
qed

lemma atm_pattern_formatGrouped:
  "re_test atm_pattern v =
   (\<exists>d. length d = 16 \<and> list_all isDigit d \<and> v = formatGrouped [4, 4, 4, 4] (js '' - '') d)"
proof
  assume "re_test atm_pattern v"
  then obtain g1 g2 g3 g4 where
    v: "v = g1 @ js '' - '' @ g2 @ js '' - '' @ g3 @ js '' - '' @ g4"
    and l: "length g1 = 4" "length g2 = 4" "length g3 = 4" "length g4 = 4"
    and d: "list_all isDigit g1" "list_all isDigit g2" "list_all isDigit g3" "list_all isDigit g4"
    unfolding atm_pattern_groups by blast
  have "length (g1 @ g2 @ g3 @ g4) = 16" using l by simp
  moreover have "list_all isDigit (g1 @ g2 @ g3 @ g4)" using d by simp
  moreover have "v = formatGrouped [4, 4, 4, 4] (js '' - '') (g1 @ g2 @ g3 @ g4)"
    unfolding v by (rule formatGrouped_four_groups [OF l, symmetric])
  ultimately show "\<exists>d. length d = 16 \<and> list_all isDigit d
      \<and> v = formatGrouped [4, 4, 4, 4] (js '' - '') d"
    by blast
next
  assume "\<exists>d. length d = 16 \<and> list_all isDigit d
      \<and> v = formatGrouped [4, 4, 4, 4] (js '' - '') d"
  then obtain d where l: "length d = 16" and d: "list_all isDigit d"
    and v: "v = formatGrouped [4, 4, 4, 4] (js '' - '') d" by blast
  let ?g1 = "take 4 d" and ?g2 = "take 4 (drop 4 d)"
  let ?g3 = "take 4 (drop 8 d)" and ?g4 = "drop 12 d"
  have split: "d = ?g1 @ ?g2 @ ?g3 @ ?g4"
  proof -
    have a: "take 8 d = take 4 d @ take 4 (drop 4 d)" using take_add [of 4 4 d] by simp
    have b: "take 12 d = take 8 d @ take 4 (drop 8 d)" using take_add [of 8 4 d] by simp
    have "((take 4 d @ take 4 (drop 4 d)) @ take 4 (drop 8 d)) @ drop 12 d = d"
      unfolding a [symmetric] b [symmetric] by simp
    then show ?thesis by simp
  qed
  have ls: "length ?g1 = 4" "length ?g2 = 4" "length ?g3 = 4" "length ?g4 = 4"
    using l by simp_all
  have ds: "list_all isDigit ?g1" "list_all isDigit ?g2" "list_all isDigit ?g3"
    "list_all isDigit ?g4"
    using d by (auto simp: list_all_iff dest!: in_set_takeD in_set_dropD)
  have "v = ?g1 @ js '' - '' @ ?g2 @ js '' - '' @ ?g3 @ js '' - '' @ ?g4"
    unfolding v by (subst split) (rule formatGrouped_four_groups [OF ls])
  with ls ds show "re_test atm_pattern v"
    unfolding atm_pattern_groups by blast
qed

lemma js_trim_empty_iff: "js_trim v = [] \<longleftrightarrow> list_all isWhiteSpace v"
proof
  assume "js_trim v = []"
  then have a: "\<forall>x \<in> set (dropWhile isWhiteSpace v). isWhiteSpace x"
    by (simp add: js_trim_def dropWhile_eq_Nil_conv)
  have "dropWhile isWhiteSpace v = []"
  proof (rule ccontr)
    assume ne: "dropWhile isWhiteSpace v \<noteq> []"
    then have "\<not> isWhiteSpace (hd (dropWhile isWhiteSpace v))" by (rule hd_dropWhile)
    with a ne show False by simp
  qed
  then show "list_all isWhiteSpace v" by (simp add: dropWhile_eq_Nil_conv list_all_iff)
next
  assume "list_all isWhiteSpace v"
  then show "js_trim v = []" by (auto simp: js_trim_def list_all_iff dest: set_dropWhileD)
qed

lemma white_space_no_digits: "list_all isWhiteSpace v \<Longrightarrow> replace_g re_NonDigit v = []"
  by (auto simp: replace_NonDigit_filter list_all_iff filter_empty_conv dest: digit_not_white_space)

lemma digits_of_canonical:
  "length d = 16 \<Longrightarrow> list_all isDigit d \<Longrightarrow>
   replace_g re_NonDigit (formatGrouped [4, 4, 4, 4] (js '' - '') d) = d"
  by (simp add: digits_of_formatGrouped replace_NonDigit_separator replace_NonDigit_digits)

lemma validateAtmNumber_None_iff: "validateAtmNumber v = None \<longleftrightarrow> re_test atm_pattern v"
proof
  assume "validateAtmNumber v = None"
  then show "re_test atm_pattern v"
    by (simp add: validateAtmNumber_def Let_def split: if_splits)
next
  assume p: "re_test atm_pattern v"
  then obtain d where l: "length d = 16" and d: "list_all isDigit d"
    and v: "v = formatGrouped [4, 4, 4, 4] (js '' - '') d"
    unfolding atm_pattern_formatGrouped by blast
  have n: "replace_g re_NonDigit v = d" unfolding v using l d by (rule digits_of_canonical)
  have "\<not> list_all isWhiteSpace v"
    using white_space_no_digits [of v] n l by auto
  then have "js_trim v \<noteq> []" by (simp add: js_trim_empty_iff)
  moreover have "v \<noteq> []" using n l by auto
  ultimately show "validateAtmNumber v = None"
    using p n l by (simp add: validateAtmNumber_def Let_def)
qed

section \<open>The shape of the formatted string\<close>

lemma formatters_grouped_on_digits:
  assumes "list_all isDigit d"
  shows "length d \<le> 16 \<Longrightarrow> formatAtmNumber d = formatGrouped [4, 4, 4, 4] (js '' - '') d"
    and "length d \<le> 16 \<Longrightarrow>
         useAtmMask_formatAtmNumber d = formatGrouped [4, 4, 4, 4] (js '' - '') d"
    and "length d \<le> 10 \<Longrightarrow> formatAccountNumber d = formatGrouped [3, 3, 4] (js '' - '') d"
  using assms
  by (simp_all add: formatAtmNumber_grouped useAtmMask_formatAtmNumber_grouped
      formatAccountNumber_grouped extractDigits_id)

lemma formatters_ends:
  "\<not> prefix (js '' - '') (formatAtmNumber v) \<and> \<not> suffix (js '' - '') (formatAtmNumber v)"
  "\<not> prefix (js '' - '') (useAtmMask_formatAtmNumber v)
   \<and> \<not> suffix (js '' - '') (useAtmMask_formatAtmNumber v)"
  "\<not> prefix (js '' - '') (formatAccountNumber v)
   \<and> \<not> suffix (js '' - '') (formatAccountNumber v)"
  unfolding formatAtmNumber_grouped useAtmMask_formatAtmNumber_grouped
    formatAccountNumber_grouped
  by (rule formatGrouped_ends [OF extractDigits_all_digits], simp)+

lemma formatters_empty:
  "formatAtmNumber [] = []" "useAtmMask_formatAtmNumber [] = []" "formatAccountNumber [] = []"
  by (simp_all add: formatAtmNumber_grouped useAtmMask_formatAtmNumber_grouped
      formatAccountNumber_grouped extractDigits_take_filter formatGrouped_def)

lemma formatters_examples:
  "formatAtmNumber (js ''12345'') = js ''1234 - 5''"
  "formatAtmNumber (js ''123456789012'') = js ''1234 - 5678 - 9012''"
  "useAtmMask_formatAtmNumber (js ''12345'') = js ''1234 - 5''"
  "useAtmMask_formatAtmNumber (js ''123456789012'') = js ''1234 - 5678 - 9012''"
  "formatGrouped [4, 4, 4, 4] (js '' - '') (js ''12345'') = js ''1234 - 5''"
  "formatGrouped [4, 4, 4, 4] (js '' - '') (js ''123456789012'') = js ''1234 - 5678 - 9012''"
  by (simp_all add: formatAtmNumber_grouped useAtmMask_formatAtmNumber_grouped
      extractDigits_take_filter formatGrouped_def js_def isDigit_def)

text \<open>
  C7. Shape of the grouped output. On a string of decimal digits no longer than the
  maximum, each formatter is the grouped formatter of the specification: the digits cut
  left to right into the group lengths (4-4-4-4, or 3-3-4 for the account number), the
  last group possibly short, joined by \<open>" - "\<close>. No output starts or ends with the separator,
  the empty string gives the empty string, \<open>"12345"\<close> gives \<open>"1234 - 5"\<close> and
  \<open>"123456789012"\<close> gives \<open>"1234 - 5678 - 9012"\<close>.
\<close>

theorem grouped_formatting_shape:
  "list_all isDigit d \<Longrightarrow>
   (length d \<le> 16 \<longrightarrow>
      formatAtmNumber d = formatGrouped [4, 4, 4, 4] (js '' - '') d
      \<and> useAtmMask_formatAtmNumber d = formatGrouped [4, 4, 4, 4] (js '' - '') d)
   \<and> (length d \<le> 10 \<longrightarrow> formatAccountNumber d = formatGrouped [3, 3, 4] (js '' - '') d)
   \<and> \<not> prefix (js '' - '') (formatAtmNumber d) \<and> \<not> suffix (js '' - '') (formatAtmNumber d)
   \<and> \<not> prefix (js '' - '') (useAtmMask_formatAtmNumber d)
   \<and> \<not> suffix (js '' - '') (useAtmMask_formatAtmNumber d)
   \<and> \<not> prefix (js '' - '') (formatAccountNumber d)
   \<and> \<not> suffix (js '' - '') (formatAccountNumber d)
   \<and> formatAtmNumber [] = [] \<and> useAtmMask_formatAtmNumber [] = []
   \<and> formatAccountNumber [] = []
   \<and> formatGrouped [4, 4, 4, 4] (js '' - '') (js ''12345'') = js ''1234 - 5''
   \<and> formatGrouped [4, 4, 4, 4] (js '' - '') (js ''123456789012'') = js ''1234 - 5678 - 9012''
   \<and> formatAtmNumber (js ''12345'') = js ''1234 - 5''
   \<and> formatAtmNumber (js ''123456789012'') = js ''1234 - 5678 - 9012''
   \<and> useAtmMask_formatAtmNumber (js ''12345'') = js ''1234 - 5''
   \<and> useAtmMask_formatAtmNumber (js ''123456789012'') = js ''1234 - 5678 - 9012''"
proof -
  assume d: "list_all isDigit d"
  note g = formatters_grouped_on_digits [OF d]
  from g(1) g(2) have "length d \<le> 16 \<longrightarrow>
      formatAtmNumber d = formatGrouped [4, 4, 4, 4] (js '' - '') d
      \<and> useAtmMask_formatAtmNumber d = formatGrouped [4, 4, 4, 4] (js '' - '') d"
    by blast
  moreover from g(3) have
    "length d \<le> 10 \<longrightarrow> formatAccountNumber d = formatGrouped [3, 3, 4] (js '' - '') d"
    by blast
  ultimately show ?thesis
    using formatters_ends [of d]
    by (simp only: formatters_empty formatters_examples simp_thms)
qed

text \<open>
  The shape at the seven digits \<open>1234567\<close>, within both maxima.
\<close>

theorem grouped_formatting_shape_witness:
  "list_all isDigit (js ''1234567'')
   \<and> formatAtmNumber (js ''1234567'') = formatGrouped [4, 4, 4, 4] (js '' - '') (js ''1234567'')
   \<and> useAtmMask_formatAtmNumber (js ''1234567'')
       = formatGrouped [4, 4, 4, 4] (js '' - '') (js ''1234567'')
   \<and> formatAccountNumber (js ''1234567'') = formatGrouped [3, 3, 4] (js '' - '') (js ''1234567'')
   \<and> formatGrouped [3, 3, 4] (js '' - '') (js ''1234567'') = js ''123 - 456 - 7''
   \<and> \<not> prefix (js '' - '') (formatAtmNumber (js ''1234567''))
   \<and> \<not> suffix (js '' - '') (formatAtmNumber (js ''1234567''))"
proof -
  have d: "list_all isDigit (js ''1234567'')" by (simp add: js_def isDigit_def)
  have l: "length (js ''1234567'') \<le> 16" "length (js ''1234567'') \<le> 10"
    by (simp_all add: js_def)
  have e: "formatGrouped [3, 3, 4] (js '' - '') (js ''1234567'') = js ''123 - 456 - 7''"
    by (simp add: formatGrouped_def js_def)
  from grouped_formatting_shape [OF d] l d e show ?thesis by blast
qed

section \<open>What the validators accept\<close>

lemma replace_NonDigit_all_digits: "list_all isDigit (replace_g re_NonDigit v)"
  by (simp add: replace_NonDigit_filter list_all_iff)

lemma atm_pattern_digit_count:
  "re_test atm_pattern v \<Longrightarrow> length (replace_g re_NonDigit v) = 16"
  unfolding atm_pattern_formatGrouped by (auto simp: digits_of_canonical)

lemma accepted_is_formatted:
  assumes "validateAtmNumber v = None"
  shows "length (replace_g re_NonDigit v) = 16"
    and "v = useAtmMask_formatAtmNumber (replace_g re_NonDigit v)"
proof -
  from assms have "re_test atm_pattern v" by (simp only: validateAtmNumber_None_iff)
  then obtain d where l: "length d = 16" and d: "list_all isDigit d"
    and v: "v = formatGrouped [4, 4, 4, 4] (js '' - '') d"
    unfolding atm_pattern_formatGrouped by blast
  have n: "replace_g re_NonDigit v = d" unfolding v using l d by (rule digits_of_canonical)
  show "length (replace_g re_NonDigit v) = 16" using n l by simp
  have "extractDigits 16 d = d" using d l by (simp add: extractDigits_id)
  then show "v = useAtmMask_formatAtmNumber (replace_g re_NonDigit v)"
    unfolding n useAtmMask_formatAtmNumber_grouped using v by simp
qed

lemma formatted_is_accepted:
  assumes "length (extractDigits 16 v) = 16"
  shows "validateAtmNumber (useAtmMask_formatAtmNumber v) = None"
  unfolding validateAtmNumber_None_iff atm_pattern_formatGrouped
    useAtmMask_formatAtmNumber_grouped
  using assms extractDigits_all_digits [of 16 v] by blast

text \<open>
  C10. \<open>validateAtmNumber\<close> accepts exactly the outputs of the formatter on sixteen digits:
  it returns \<open>null\<close> on \<open>v\<close> if and only if \<open>v\<close> holds exactly 16 digits and is the formatted
  form of its own digits; and the formatted form of any input with at least 16 digits is
  accepted.
\<close>

theorem validator_accepts_formatter_outputs:
  "(validateAtmNumber v = None \<longleftrightarrow>
      length (replace_g re_NonDigit v) = 16
      \<and> v = useAtmMask_formatAtmNumber (replace_g re_NonDigit v))
   \<and> (16 \<le> length (replace_g re_NonDigit input) \<longrightarrow>
        validateAtmNumber (useAtmMask_formatAtmNumber input) = None)"
proof -
  have "validateAtmNumber v = None"
    if l: "length (replace_g re_NonDigit v) = 16"
      and v: "v = useAtmMask_formatAtmNumber (replace_g re_NonDigit v)"
  proof -
    have "extractDigits 16 (replace_g re_NonDigit v) = replace_g re_NonDigit v"
      using l by (simp add: extractDigits_id replace_NonDigit_all_digits)
    with l have "length (extractDigits 16 (replace_g re_NonDigit v)) = 16" by simp
    then have "validateAtmNumber (useAtmMask_formatAtmNumber (replace_g re_NonDigit v)) = None"
      by (rule formatted_is_accepted)
    with v show ?thesis by simp
  qed
  moreover have "validateAtmNumber (useAtmMask_formatAtmNumber input) = None"
    if "16 \<le> length (replace_g re_NonDigit input)"
  proof -
    from that have "length (extractDigits 16 input) = 16"
      by (simp add: extractDigits_def js_slice_def)
    then show ?thesis by (rule formatted_is_accepted)
  qed
  ultimately show ?thesis
    using accepted_is_formatted [of v] by blast
qed

lemma validateAtmNumber_example:
  "validateAtmNumber (js ''1234 - 5678 - 9012 - 3456'') = None"
  by code_simp

text \<open>
  Both halves at concrete strings: a formatted number, and an input with nineteen digits.
\<close>

theorem validator_accepts_formatter_outputs_witness:
  "validateAtmNumber (js ''1234 - 5678 - 9012 - 3456'') = None
   \<and> length (replace_g re_NonDigit (js ''1234 - 5678 - 9012 - 3456'')) = 16
   \<and> js ''1234 - 5678 - 9012 - 3456''
       = useAtmMask_formatAtmNumber (replace_g re_NonDigit (js ''1234 - 5678 - 9012 - 3456''))
   \<and> 16 \<le> length (replace_g re_NonDigit (js ''12345678-90123456-789''))
   \<and> validateAtmNumber (useAtmMask_formatAtmNumber (js ''12345678-90123456-789'')) = None"
proof -
  have n: "16 \<le> length (replace_g re_NonDigit (js ''12345678-90123456-789''))"
    by (simp add: js_def re_NonDigit_def isDigit_def)
  from validator_accepts_formatter_outputs
    [of "js ''1234 - 5678 - 9012 - 3456''" "js ''12345678-90123456-789''"]
    validateAtmNumber_example n
  show ?thesis by blast
qed

lemma re_test_digit_count:
  "re_test p v \<Longrightarrow> list_all (\<lambda>a. \<forall>c. a = Re_lit c \<longrightarrow> \<not> isDigit c) p \<Longrightarrow>
   length (replace_g re_NonDigit v) = length (filter (\<lambda>a. a = Re_d) p)"
proof (induction p v rule: re_test.induct)
  case (2 a as c cs)
  then show ?case
    by (cases a) (auto simp: re_NonDigit_def dest: digit_not_white_space)
qed simp_all

lemma atm_pattern_s_digit_count:
  "re_test atm_pattern_s v \<Longrightarrow> length (replace_g re_NonDigit v) = 16"
  by (drule re_test_digit_count) (auto simp: atm_pattern_s_def isDigit_def list_all_iff)

lemma atm_pattern_s_length: "length atm_pattern_s = 25"
  by (simp add: atm_pattern_s_def)

lemma atm_pattern_length: "length atm_pattern = 25"
  by (simp add: atm_pattern_def js_def)

lemma digits_keep_Space_or_Hyphen:
  "list_all isDigit d \<Longrightarrow> replace_g re_Space_or_Hyphen d = d"
proof -
  have "\<not> re_Space_or_Hyphen c" if "isDigit c" for c
    using that digit_not_white_space [of c]
    by (auto simp: re_Space_or_Hyphen_def isDigit_def)
  then show "list_all isDigit d \<Longrightarrow> replace_g re_Space_or_Hyphen d = d"
    by (simp add: replace_g_filter list_all_iff)
qed

lemma digits_not_all_white_space:
  "list_all isDigit d \<Longrightarrow> d \<noteq> [] \<Longrightarrow> js_trim d \<noteq> []"
  unfolding js_trim_empty_iff
  by (cases d) (auto dest: digit_not_white_space)

lemma raw_digits_rejected_for_format:
  assumes "list_all isDigit raw" and "length raw = 16"
  shows "validateAtmNumber raw
         = Some ''ATM number must be in format: 0000 - 0000 - 0000 - 0000''"
    and "zod_issues schema_atmNumber raw
         = [''ATM number must be in format: 0000 - 0000 - 0000 - 0000'']"
    and "zod_issues formSchema_atmNumber raw
         = [''ATM number must be in format: 0000 - 0000 - 0000 - 0000'']"
proof -
  have p: "\<not> re_test atm_pattern raw"
    using re_test_length [of atm_pattern raw] assms(2) by (auto simp: atm_pattern_length)
  have q: "\<not> re_test atm_pattern_s raw"
    using re_test_length [of atm_pattern_s raw] assms(2) by (auto simp: atm_pattern_s_length)
  have ne: "raw \<noteq> []" using assms(2) by auto
  then have t: "js_trim raw \<noteq> []" using assms(1) by (simp add: digits_not_all_white_space)
  have n: "replace_g re_NonDigit raw = raw" using assms(1) by (rule replace_NonDigit_digits)
  show "validateAtmNumber raw
        = Some ''ATM number must be in format: 0000 - 0000 - 0000 - 0000''"
    using p ne t assms(2) by (simp add: validateAtmNumber_def Let_def n)
  have s: "replace_g re_Space_or_Hyphen raw = raw"
    using assms(1) by (rule digits_keep_Space_or_Hyphen)
  show "zod_issues schema_atmNumber raw
        = [''ATM number must be in format: 0000 - 0000 - 0000 - 0000'']"
    using p assms(2) by (simp add: schema_atmNumber_def s)
  show "zod_issues formSchema_atmNumber raw
        = [''ATM number must be in format: 0000 - 0000 - 0000 - 0000'']"
    using q assms(2) by (simp add: formSchema_atmNumber_def s)
qed

lemma schema_atmNumber_valid:
  "zod_issues schema_atmNumber v = [] \<Longrightarrow> re_test atm_pattern v"
  by (simp add: schema_atmNumber_def split: if_splits)

lemma formSchema_atmNumber_valid:
  "zod_issues formSchema_atmNumber v = [] \<Longrightarrow> re_test atm_pattern_s v"
  by (simp add: formSchema_atmNumber_def split: if_splits)

text \<open>
  C3. Validity is a conjunction. Each of the three validators accepts a value only when
  it holds at least 16 digits and matches the validator's grouped pattern
  (\<open>validateAtmNumber\<close> and the schema of the input-mask form write the separator as
  \<open>" - "\<close>, \<open>formSchema.atmNumber\<close> as \<open>\s-\s\<close>); sixteen raw digits without separators
  are rejected, with the message for the format and no other.
\<close>

theorem validity_is_a_conjunction:
  "(validateAtmNumber v = None \<longrightarrow>
      16 \<le> length (replace_g re_NonDigit v) \<and> re_test atm_pattern v)
   \<and> (zod_issues schema_atmNumber v = [] \<longrightarrow>
      16 \<le> length (replace_g re_NonDigit v) \<and> re_test atm_pattern v)
   \<and> (zod_issues formSchema_atmNumber v = [] \<longrightarrow>
      16 \<le> length (replace_g re_NonDigit v) \<and> re_test atm_pattern_s v)
   \<and> (list_all isDigit raw \<and> length raw = 16 \<longrightarrow>
        validateAtmNumber raw
          = Some ''ATM number must be in format: 0000 - 0000 - 0000 - 0000''
        \<and> zod_issues schema_atmNumber raw
          = [''ATM number must be in format: 0000 - 0000 - 0000 - 0000'']
        \<and> zod_issues formSchema_atmNumber raw
          = [''ATM number must be in format: 0000 - 0000 - 0000 - 0000''])"
proof -
  have "16 \<le> length (replace_g re_NonDigit v) \<and> re_test atm_pattern v"
    if "validateAtmNumber v = None"
    using that atm_pattern_digit_count [of v] by (simp add: validateAtmNumber_None_iff)
  moreover have "16 \<le> length (replace_g re_NonDigit v) \<and> re_test atm_pattern v"
    if "zod_issues schema_atmNumber v = []"
    using schema_atmNumber_valid [OF that] atm_pattern_digit_count [of v] by simp
  moreover have "16 \<le> length (replace_g re_NonDigit v) \<and> re_test atm_pattern_s v"
    if "zod_issues formSchema_atmNumber v = []"
    using formSchema_atmNumber_valid [OF that] atm_pattern_s_digit_count [of v] by simp
  ultimately show ?thesis
    using raw_digits_rejected_for_format [of raw] by blast
qed

text \<open>
  An accepted value and sixteen raw digits.
\<close>

theorem validity_is_a_conjunction_witness:
  "validateAtmNumber (js ''1234 - 5678 - 9012 - 3456'') = None
   \<and> zod_issues schema_atmNumber (js ''1234 - 5678 - 9012 - 3456'') = []
   \<and> zod_issues formSchema_atmNumber (js ''1234 - 5678 - 9012 - 3456'') = []
   \<and> 16 \<le> length (replace_g re_NonDigit (js ''1234 - 5678 - 9012 - 3456''))
   \<and> re_test atm_pattern (js ''1234 - 5678 - 9012 - 3456'')
   \<and> re_test atm_pattern_s (js ''1234 - 5678 - 9012 - 3456'')
   \<and> list_all isDigit (js ''1234567890123456'') \<and> length (js ''1234567890123456'') = 16
   \<and> validateAtmNumber (js ''1234567890123456'')
       = Some ''ATM number must be in format: 0000 - 0000 - 0000 - 0000''
   \<and> zod_issues schema_atmNumber (js ''1234567890123456'')
       = [''ATM number must be in format: 0000 - 0000 - 0000 - 0000'']
   \<and> zod_issues formSchema_atmNumber (js ''1234567890123456'')
       = [''ATM number must be in format: 0000 - 0000 - 0000 - 0000'']"
proof -
  have a: "validateAtmNumber (js ''1234 - 5678 - 9012 - 3456'') = None"
    by code_simp
  have b: "zod_issues schema_atmNumber (js ''1234 - 5678 - 9012 - 3456'') = []"
    "zod_issues formSchema_atmNumber (js ''1234 - 5678 - 9012 - 3456'') = []"
    by code_simp+
  have c: "list_all isDigit (js ''1234567890123456'')" "length (js ''1234567890123456'') = 16"
    by (simp_all add: js_def isDigit_def)
  from validity_is_a_conjunction
    [of "js ''1234 - 5678 - 9012 - 3456''" "js ''1234567890123456''"] a b c
  show ?thesis by blast
qed

text \<open>
  The boundary of "too short". \<open>validateAtmNumber\<close> reports it exactly below 16 digits.
  The length refinement of \<open>formSchema.atmNumber\<close> compares with 15, that of
  \<open>schema.atmNumber\<close> asks for exactly 16, and what both count is what is left after
  deleting white space and hyphens.
\<close>

lemma validateAtmNumber_too_short_iff:
  "v \<noteq> [] \<Longrightarrow> js_trim v \<noteq> [] \<Longrightarrow>
   (validateAtmNumber v = Some ''ATM number must be 16 digits'')
   = (length (replace_g re_NonDigit v) < 16)"
  by (simp add: validateAtmNumber_def Let_def)

lemma formSchema_atmNumber_too_short_iff:
  "(''ATM number must be at least 15 characters'' \<in> set (zod_issues formSchema_atmNumber v))
   = (length (replace_g re_Space_or_Hyphen v) < 15)"
  by (auto simp: formSchema_atmNumber_def)

lemma schema_atmNumber_too_short_iff:
  "(''ATM number must be 16 digits'' \<in> set (zod_issues schema_atmNumber v))
   = (length (replace_g re_Space_or_Hyphen v) \<noteq> 16)"
  by (auto simp: schema_atmNumber_def)

lemma digits_of_formatAtmNumber:
  "replace_g re_NonDigit (formatAtmNumber x) = extractDigits 16 x"
proof -
  have "take 16 (extractDigits 16 x) = extractDigits 16 x"
    using extractDigits_length [of 16 x] by simp
  then show ?thesis
    unfolding formatAtmNumber_grouped
    by (simp add: digits_of_formatGrouped replace_NonDigit_separator replace_NonDigit_digits
        extractDigits_all_digits)
qed

lemma stripped_formatGrouped:
  "replace_g cls sep = [] \<Longrightarrow>
   replace_g cls (formatGrouped gs sep d) = replace_g cls (take (sum_list gs) d)"
  by (simp add: formatGrouped_def replace_g_join concat_groupsOf)

lemma stripped_formatAtmNumber:
  "replace_g re_Space_or_Hyphen (formatAtmNumber x) = extractDigits 16 x"
proof -
  have s: "replace_g re_Space_or_Hyphen (js '' - '') = []"
    by (simp add: js_def re_Space_or_Hyphen_def isWhiteSpace_def)
  have t: "take 16 (extractDigits 16 x) = extractDigits 16 x"
    using extractDigits_length [of 16 x] by simp
  have "replace_g re_Space_or_Hyphen (formatAtmNumber x)
        = replace_g re_Space_or_Hyphen (take (sum_list [4, 4, 4, 4]) (extractDigits 16 x))"
    unfolding formatAtmNumber_grouped by (rule stripped_formatGrouped [OF s])
  also have "\<dots> = replace_g re_Space_or_Hyphen (extractDigits 16 x)"
    using t by simp
  also have "\<dots> = extractDigits 16 x"
    by (rule digits_keep_Space_or_Hyphen [OF extractDigits_all_digits])
  finally show ?thesis .
qed

lemma formatAtmNumber_not_blank:
  assumes "formatAtmNumber x \<noteq> []"
  shows "js_trim (formatAtmNumber x) \<noteq> []"
proof
  assume "js_trim (formatAtmNumber x) = []"
  then have "replace_g re_NonDigit (formatAtmNumber x) = []"
    by (simp add: js_trim_empty_iff white_space_no_digits)
  then have "extractDigits 16 x = []" by (simp only: digits_of_formatAtmNumber)
  then have "formatAtmNumber x = []"
    by (simp add: formatAtmNumber_grouped formatGrouped_def)
  with assms show False by simp
qed

lemma schema_atmNumber_short_formatted:
  assumes "formatAtmNumber x \<noteq> []"
    and "length (replace_g re_NonDigit (formatAtmNumber x)) < 16"
  shows "zod_issues schema_atmNumber (formatAtmNumber x)
         = [''ATM number must be in format: 0000 - 0000 - 0000 - 0000'',
            ''ATM number must be 16 digits'']"
proof -
  have p: "\<not> re_test atm_pattern (formatAtmNumber x)"
    using atm_pattern_digit_count [of "formatAtmNumber x"] assms(2) by auto
  have l: "length (extractDigits 16 x) \<noteq> 16"
    using assms(2) by (simp add: digits_of_formatAtmNumber)
  from assms(1) have m: "Suc 0 \<le> length (formatAtmNumber x)"
    by (cases "formatAtmNumber x") simp_all
  show ?thesis
    using p l m by (simp add: schema_atmNumber_def stripped_formatAtmNumber)
qed

text \<open>
  C2. The boundary of "too short". On every string that is neither empty nor all white
  space, \<open>validateAtmNumber\<close> reports "too short" exactly when the string holds fewer
  than 16 digits. On every formatted string, \<open>schema.atmNumber\<close> raises its issue
  "must be 16 digits" exactly when the string holds fewer than 16 digits (after the issue
  for the format, which such a string raises too), and \<open>formSchema.atmNumber\<close> raises its
  issue "must be at least 15 characters" exactly when the string holds fewer than 15
  digits.
\<close>

theorem too_short_boundary:
  "(v \<noteq> [] \<and> js_trim v \<noteq> [] \<longrightarrow>
      (validateAtmNumber v = Some ''ATM number must be 16 digits'')
      = (length (replace_g re_NonDigit v) < 16))
   \<and> (formatAtmNumber x \<noteq> [] \<longrightarrow>
      (validateAtmNumber (formatAtmNumber x) = Some ''ATM number must be 16 digits'')
      = (length (replace_g re_NonDigit (formatAtmNumber x)) < 16))
   \<and> (''ATM number must be 16 digits'' \<in> set (zod_issues schema_atmNumber (formatAtmNumber x)))
      = (length (replace_g re_NonDigit (formatAtmNumber x)) < 16)
   \<and> (formatAtmNumber x \<noteq> [] \<and> length (replace_g re_NonDigit (formatAtmNumber x)) < 16 \<longrightarrow>
      zod_issues schema_atmNumber (formatAtmNumber x)
      = [''ATM number must be in format: 0000 - 0000 - 0000 - 0000'',
         ''ATM number must be 16 digits''])
   \<and> (''ATM number must be at least 15 characters''
        \<in> set (zod_issues formSchema_atmNumber (formatAtmNumber x)))
      = (length (replace_g re_NonDigit (formatAtmNumber x)) < 15)"
proof -
  have a: "(validateAtmNumber v = Some ''ATM number must be 16 digits'')
      = (length (replace_g re_NonDigit v) < 16)" if "v \<noteq> []" "js_trim v \<noteq> []" for v
    using that by (rule validateAtmNumber_too_short_iff)
  have b: "(validateAtmNumber (formatAtmNumber x) = Some ''ATM number must be 16 digits'')
      = (length (replace_g re_NonDigit (formatAtmNumber x)) < 16)"
    if "formatAtmNumber x \<noteq> []"
    using that formatAtmNumber_not_blank [OF that] by (rule a)
  have c: "(''ATM number must be 16 digits''
        \<in> set (zod_issues schema_atmNumber (formatAtmNumber x)))
      = (length (replace_g re_NonDigit (formatAtmNumber x)) < 16)"
    using extractDigits_length [of 16 x]
    by (auto simp add: schema_atmNumber_too_short_iff stripped_formatAtmNumber
        digits_of_formatAtmNumber)
  have d: "(''ATM number must be at least 15 characters''
        \<in> set (zod_issues formSchema_atmNumber (formatAtmNumber x)))
      = (length (replace_g re_NonDigit (formatAtmNumber x)) < 15)"
    by (simp add: formSchema_atmNumber_too_short_iff stripped_formatAtmNumber
        digits_of_formatAtmNumber)
  show ?thesis
    using a [of v] b c d schema_atmNumber_short_formatted [of x] by blast
qed

text \<open>
  The boundary at \<open>"1234 - 5678"\<close> and at the formatted form of fifteen digits.
\<close>

theorem too_short_boundary_witness:
  "js ''1234 - 5678'' \<noteq> [] \<and> js_trim (js ''1234 - 5678'') \<noteq> []
   \<and> length (replace_g re_NonDigit (js ''1234 - 5678'')) < 16
   \<and> validateAtmNumber (js ''1234 - 5678'') = Some ''ATM number must be 16 digits''
   \<and> formatAtmNumber (js ''123456789012345'') \<noteq> []
   \<and> length (replace_g re_NonDigit (formatAtmNumber (js ''123456789012345''))) < 16
   \<and> validateAtmNumber (formatAtmNumber (js ''123456789012345''))
       = Some ''ATM number must be 16 digits''
   \<and> zod_issues schema_atmNumber (formatAtmNumber (js ''123456789012345''))
       = [''ATM number must be in format: 0000 - 0000 - 0000 - 0000'',
          ''ATM number must be 16 digits'']
   \<and> \<not> length (replace_g re_NonDigit (formatAtmNumber (js ''123456789012345''))) < 15
   \<and> ''ATM number must be at least 15 characters''
       \<notin> set (zod_issues formSchema_atmNumber (formatAtmNumber (js ''123456789012345'')))"
proof -
  have v: "js ''1234 - 5678'' \<noteq> []" "js_trim (js ''1234 - 5678'') \<noteq> []"
    "length (replace_g re_NonDigit (js ''1234 - 5678'')) < 16"
    by code_simp+
  have f: "formatAtmNumber (js ''123456789012345'') = js ''1234 - 5678 - 9012 - 345''"
    by code_simp
  have x: "js ''1234 - 5678 - 9012 - 345'' \<noteq> []"
    "length (replace_g re_NonDigit (js ''1234 - 5678 - 9012 - 345'')) < 16"
    "\<not> length (replace_g re_NonDigit (js ''1234 - 5678 - 9012 - 345'')) < 15"
    by code_simp+
  from too_short_boundary [of "js ''1234 - 5678''" "js ''123456789012345''"] v x
  show ?thesis unfolding f by blast
qed

text \<open>
  The formatted form of fifteen digits, \<open>"1234 - 5678 - 9012 - 345"\<close>, holds fewer than
  16 digits: \<open>validateAtmNumber\<close> rejects it as too short, and \<open>formSchema.atmNumber\<close>
  does not: its length refinement passes, and the only issue raised is the one for the
  format.
\<close>

theorem formSchema_atmNumber_fifteen_digits:
  "formatAtmNumber (js ''123456789012345'') = js ''1234 - 5678 - 9012 - 345''
   \<and> length (replace_g re_NonDigit (js ''1234 - 5678 - 9012 - 345'')) = 15
   \<and> zod_issues formSchema_atmNumber (js ''1234 - 5678 - 9012 - 345'')
       = [''ATM number must be in format: 0000 - 0000 - 0000 - 0000'']
   \<and> validateAtmNumber (js ''1234 - 5678 - 9012 - 345'')
       = Some ''ATM number must be 16 digits''"
  by code_simp

lemma validateAtmNumber_required:
  "v = [] \<or> list_all isWhiteSpace v \<Longrightarrow> validateAtmNumber v = Some ''ATM number is required''"
  by (auto simp: validateAtmNumber_def js_trim_empty_iff)

lemma formSchema_atmNumber_empty_iff:
  "(''ATM number should not be empty'' \<in> set (zod_issues formSchema_atmNumber v)) = (v = [])"
  by (cases v) (auto simp: formSchema_atmNumber_def)

lemma white_space_no_Space_or_Hyphen:
  "list_all isWhiteSpace v \<Longrightarrow> replace_g re_Space_or_Hyphen v = []"
  by (auto simp: replace_g_filter re_Space_or_Hyphen_def list_all_iff filter_empty_conv)

lemma white_space_not_atm_pattern_s:
  "list_all isWhiteSpace v \<Longrightarrow> \<not> re_test atm_pattern_s v"
proof (cases v)
  case Nil
  then show ?thesis by (simp add: atm_pattern_s_def numeral_eq_Suc)
next
  case (Cons c cs)
  assume "list_all isWhiteSpace v"
  with Cons have "\<not> isDigit c" by (auto dest: digit_not_white_space)
  with Cons show ?thesis by (simp add: atm_pattern_s_def numeral_eq_Suc)
qed

text \<open>
  C8. The verdict for nothing typed. \<open>validateAtmNumber\<close> answers "required", its only
  message, to the empty string and to every string of white space. The emptiness check
  of \<open>formSchema.atmNumber\<close>, \<open>min(1)\<close>, raises its issue for the empty string and for no
  other: a non-empty string of white space passes it and is rejected by the two
  refinements, for its length and for its format.
\<close>

theorem empty_verdict:
  "(v = [] \<or> list_all isWhiteSpace v \<longrightarrow>
      validateAtmNumber v = Some ''ATM number is required'')
   \<and> ((''ATM number should not be empty'' \<in> set (zod_issues formSchema_atmNumber v)) = (v = []))
   \<and> (v \<noteq> [] \<and> list_all isWhiteSpace v \<longrightarrow>
        zod_issues formSchema_atmNumber v
        = [''ATM number must be at least 15 characters'',
           ''ATM number must be in format: 0000 - 0000 - 0000 - 0000''])"
proof -
  have "zod_issues formSchema_atmNumber v
        = [''ATM number must be at least 15 characters'',
           ''ATM number must be in format: 0000 - 0000 - 0000 - 0000'']"
    if "v \<noteq> []" "list_all isWhiteSpace v"
    using that white_space_not_atm_pattern_s [of v]
    by (simp add: formSchema_atmNumber_def white_space_no_Space_or_Hyphen Suc_le_eq)
  then show ?thesis
    using validateAtmNumber_required [of v] formSchema_atmNumber_empty_iff [of v] by blast
qed

text \<open>
  The empty string and three spaces.
\<close>

theorem empty_verdict_witness:
  "list_all isWhiteSpace (js ''   '')
   \<and> validateAtmNumber (js ''   '') = Some ''ATM number is required''
   \<and> validateAtmNumber [] = Some ''ATM number is required''
   \<and> js ''   '' \<noteq> []
   \<and> zod_issues formSchema_atmNumber (js ''   '')
       = [''ATM number must be at least 15 characters'',
          ''ATM number must be in format: 0000 - 0000 - 0000 - 0000'']"
proof -
  have w: "list_all isWhiteSpace (js ''   '')" "js ''   '' \<noteq> []"
    by (simp_all add: js_def isWhiteSpace_def)
  from empty_verdict [of "js ''   ''"] empty_verdict [of "[]"] w
  show ?thesis by blast
qed

text \<open>
  Three spaces: \<open>trim\<close> leaves nothing of them, and \<open>formSchema.atmNumber\<close> reports them as
  too short and ill-formatted, not as empty.
\<close>

theorem formSchema_atmNumber_white_space_only:
  "js_trim (js ''   '') = []
   \<and> zod_issues formSchema_atmNumber (js ''   '')
       = [''ATM number must be at least 15 characters'',
          ''ATM number must be in format: 0000 - 0000 - 0000 - 0000'']"
  by code_simp

section \<open>The key filter\<close>

lemma allow_listed_proceeds:
  assumes "keyCode e \<in> set [8, 9, 27, 13, 46] \<or> (35 \<le> keyCode e \<and> keyCode e \<le> 39)"
  shows "useAtmMask_handleKeyDown e = Proceeds \<and> AtmNumberInput_handleKeyDown e = Proceeds"
proof -
  from assms have c:
    "keyCode e \<in> set [8, 9, 27, 13, 46]
     \<or> (keyCode e = 65 \<and> ctrlKey e = True)
     \<or> (keyCode e = 67 \<and> ctrlKey e = True)
     \<or> (keyCode e = 86 \<and> ctrlKey e = True)
     \<or> (keyCode e = 88 \<and> ctrlKey e = True)
     \<or> (keyCode e = 90 \<and> ctrlKey e = True)
     \<or> (keyCode e \<ge> 35 \<and> keyCode e \<le> 39)"
    by blast
  show ?thesis
    unfolding useAtmMask_handleKeyDown_def AtmNumberInput_handleKeyDown_def Let_def
    by (simp only: if_P [OF c])
qed

lemma navigation_keys_proceed:
  assumes "keyCode e \<in> set [8, 46, 9, 27, 13, 37, 38, 39, 36, 35]"
  shows "useAtmMask_handleKeyDown e = Proceeds \<and> AtmNumberInput_handleKeyDown e = Proceeds"
proof (rule allow_listed_proceeds)
  from assms have "keyCode e = 8 \<or> keyCode e = 46 \<or> keyCode e = 9 \<or> keyCode e = 27
    \<or> keyCode e = 13 \<or> keyCode e = 37 \<or> keyCode e = 38 \<or> keyCode e = 39
    \<or> keyCode e = 36 \<or> keyCode e = 35"
    by simp
  then show "keyCode e \<in> set [8, 9, 27, 13, 46] \<or> (35 \<le> keyCode e \<and> keyCode e \<le> 39)"
    by (simp only: list.set insert_iff empty_iff) arith
qed

lemma clipboard_shortcuts_proceed:
  assumes "ctrlKey e" and "keyCode e \<in> set [65, 67, 86, 88, 90]"
  shows "useAtmMask_handleKeyDown e = Proceeds \<and> AtmNumberInput_handleKeyDown e = Proceeds"
proof -
  from assms have c:
    "keyCode e \<in> set [8, 9, 27, 13, 46]
     \<or> (keyCode e = 65 \<and> ctrlKey e = True)
     \<or> (keyCode e = 67 \<and> ctrlKey e = True)
     \<or> (keyCode e = 86 \<and> ctrlKey e = True)
     \<or> (keyCode e = 88 \<and> ctrlKey e = True)
     \<or> (keyCode e = 90 \<and> ctrlKey e = True)
     \<or> (keyCode e \<ge> 35 \<and> keyCode e \<le> 39)"
    by simp blast
  show ?thesis
    unfolding useAtmMask_handleKeyDown_def AtmNumberInput_handleKeyDown_def Let_def
    by (simp only: if_P [OF c])
qed

text \<open>
  C5. The allow list ends at key code 39: End, Home, Left, Up, Right are 35 to 39 and the
  down arrow is 40. Both handlers suppress it, as they do any key that is not a digit,
  whether the field is empty or full.
\<close>

theorem arrow_down_is_suppressed:
  "useAtmMask_handleKeyDown
     \<lparr>keyCode = 40, ctrlKey = False, shiftKey = False, metaKey = False,
      target_value = []\<rparr> = Prevented
   \<and> useAtmMask_handleKeyDown
     \<lparr>keyCode = 40, ctrlKey = False, shiftKey = False, metaKey = False,
      target_value = js ''1234 - 5678 - 9012 - 3456''\<rparr> = Prevented
   \<and> AtmNumberInput_handleKeyDown
     \<lparr>keyCode = 40, ctrlKey = False, shiftKey = False, metaKey = False,
      target_value = []\<rparr> = Prevented"
  by (simp add: useAtmMask_handleKeyDown_def AtmNumberInput_handleKeyDown_def Let_def)

lemma not_allow_listed_at_the_cap:
  assumes "keyCode e \<notin> set [8, 9, 27, 13, 46]"
    and "keyCode e < 35 \<or> 39 < keyCode e"
    and "ctrlKey e \<longrightarrow> keyCode e \<notin> set [65, 67, 86, 88, 90]"
    and "16 \<le> length (replace_g re_NonDigit (target_value e))"
  shows "useAtmMask_handleKeyDown e = Prevented"
proof -
  from assms(1-3) have n:
    "\<not> (keyCode e \<in> set [8, 9, 27, 13, 46]
        \<or> (keyCode e = 65 \<and> ctrlKey e = True)
        \<or> (keyCode e = 67 \<and> ctrlKey e = True)
        \<or> (keyCode e = 86 \<and> ctrlKey e = True)
        \<or> (keyCode e = 88 \<and> ctrlKey e = True)
        \<or> (keyCode e = 90 \<and> ctrlKey e = True)
        \<or> (keyCode e \<ge> 35 \<and> keyCode e \<le> 39))"
    by auto
  from assms(4) have c: "length (replace_g re_NonDigit (target_value e)) \<ge> 16" .
  show ?thesis
    unfolding useAtmMask_handleKeyDown_def Let_def
    by (simp only: if_not_P [OF n] if_P [OF c])
qed

text \<open>
  C4. The cap in the key filter of the \<open>useAtmMask\<close> hook. Take a keystroke whose key is
  not a control or navigation key (Backspace, Delete, Tab, Escape, Enter, the four arrows,
  Home, End) and that is not a clipboard shortcut with a modifier held (A, C, V, X or Z
  with Control or Command). If the field already holds 16 digits or more, the handler
  suppresses it, digit keys included.
\<close>

theorem key_filter_cap:
  "keyCode e \<notin> set [8, 46, 9, 27, 13, 37, 38, 39, 40, 36, 35] \<Longrightarrow>
   \<not> ((ctrlKey e \<or> metaKey e) \<and> keyCode e \<in> set [65, 67, 86, 88, 90]) \<Longrightarrow>
   16 \<le> length (replace_g re_NonDigit (target_value e)) \<Longrightarrow>
   useAtmMask_handleKeyDown e = Prevented"
proof (rule not_allow_listed_at_the_cap)
  assume k: "keyCode e \<notin> set [8, 46, 9, 27, 13, 37, 38, 39, 40, 36, 35]"
  then show "keyCode e \<notin> set [8, 9, 27, 13, 46]" by simp
  from k have "keyCode e \<noteq> 35 \<and> keyCode e \<noteq> 36 \<and> keyCode e \<noteq> 37
      \<and> keyCode e \<noteq> 38 \<and> keyCode e \<noteq> 39"
    by simp
  then show "keyCode e < 35 \<or> 39 < keyCode e" by arith
next
  assume "\<not> ((ctrlKey e \<or> metaKey e) \<and> keyCode e \<in> set [65, 67, 86, 88, 90])"
  then show "ctrlKey e \<longrightarrow> keyCode e \<notin> set [65, 67, 86, 88, 90]" by blast
next
  assume "16 \<le> length (replace_g re_NonDigit (target_value e))"
  then show "16 \<le> length (replace_g re_NonDigit (target_value e))" .
qed

text \<open>
  The key \<open>5\<close>, no modifier held, on a field that holds sixteen digits.
\<close>

theorem key_filter_cap_witness:
  "length (replace_g re_NonDigit (js ''1234 - 5678 - 9012 - 3456'')) = 16
   \<and> useAtmMask_handleKeyDown
       \<lparr>keyCode = 53, ctrlKey = False, shiftKey = False, metaKey = False,
        target_value = js ''1234 - 5678 - 9012 - 3456''\<rparr> = Prevented"
proof -
  have n: "length (replace_g re_NonDigit (js ''1234 - 5678 - 9012 - 3456'')) = 16"
    by (simp add: js_def re_NonDigit_def isDigit_def)
  from key_filter_cap
    [of "\<lparr>keyCode = 53, ctrlKey = False, shiftKey = False, metaKey = False,
         target_value = js ''1234 - 5678 - 9012 - 3456''\<rparr>"] n
  show ?thesis by simp
qed

text \<open>
  With sixteen digits in the field, the handler of the input-mask form lets the key \<open>5\<close>
  proceed.
\<close>

theorem AtmNumberInput_digit_key_at_the_cap:
  "length (replace_g re_NonDigit (js ''1234 - 5678 - 9012 - 3456'')) = 16
   \<and> AtmNumberInput_handleKeyDown
       \<lparr>keyCode = 53, ctrlKey = False, shiftKey = False, metaKey = False,
        target_value = js ''1234 - 5678 - 9012 - 3456''\<rparr> = Proceeds"
  by (simp add: AtmNumberInput_handleKeyDown_def js_def re_NonDigit_def isDigit_def)

end
